theory Spec2Isabelle
  imports Main
begin

section \<open>The inverted text index of textindex.py\<close>

text \<open>
  The script keeps its index in two redis databases. Database 0 maps a token (a stemmed
  word) to the set of file names whose text contains it; \<open>smembers\<close> on a key that was
  never written answers the empty set, so the database is a total function into sets.
  Database 1 maps a file name to the text found in it; \<open>get\<close> on a missing key
  answers \<open>None\<close>. Strings are Python 2 byte strings.
\<close>

record index_state =
  tokens :: "string \<Rightarrow> string set"
  docs :: "string \<rightharpoonup> string"

definition empty_state :: index_state where
  "empty_state = \<lparr>tokens = (\<lambda>_. {}), docs = Map.empty\<rparr>"

text \<open>
  What \<open>Index.__init__\<close> stores, apart from the two redis clients: the stemmer (an object
  or \<open>None\<close>; the methods test it with \<open>if self.stemmer\<close>) and the stop words. The
  method \<open>add\<close> tokenizes with \<open>nltk.word_tokenize\<close> itself, not with the tokenizer
  handed to the constructor; that library function is the field \<open>word_tokenize\<close>.
\<close>

record index =
  word_tokenize :: "string \<Rightarrow> string list"
  stemmer :: "(string \<Rightarrow> string) option"
  stopwords :: "string set"

subsection \<open>Python's \<open>str.lower\<close> on byte strings\<close>

text \<open>
  The bytes \<open>A\<close> to \<open>Z\<close> (65 to 90) go to \<open>a\<close> to \<open>z\<close>: 32 is added, which sets
  bit 5 of the byte. Every other byte stays.
\<close>

definition lower_char :: "char \<Rightarrow> char" where
  "lower_char c =
     (if 65 \<le> (of_char c :: nat) \<and> (of_char c :: nat) \<le> 90
      then (case c of Char b0 b1 b2 b3 b4 b5 b6 b7 \<Rightarrow> Char b0 b1 b2 b3 b4 True b6 b7)
      else c)"

definition lower :: "string \<Rightarrow> string" where
  "lower s = map lower_char s"

subsection \<open>Truthiness\<close>

text \<open>\<open>if res:\<close> on a value that is \<open>None\<close> or a string: true for a non-empty string only.\<close>

definition truthy_str :: "string option \<Rightarrow> bool" where
  "truthy_str res = (case res of None \<Rightarrow> False | Some s \<Rightarrow> s \<noteq> [])"

subsection \<open>\<open>Index.lookup\<close>\<close>

text \<open>
  The two statements that turn a query word into a key of database 0:
  \<open>word = word.lower()\<close>, then \<open>word = self.stemmer.stem(word)\<close> when a stemmer is set.
\<close>

definition stem_if :: "index \<Rightarrow> string \<Rightarrow> string" where
  "stem_if ix word = (case stemmer ix of None \<Rightarrow> word | Some stem \<Rightarrow> stem word)"

definition query_key :: "index \<Rightarrow> string \<Rightarrow> string" where
  "query_key ix word = stem_if ix (lower word)"

text \<open>The set comprehension \<open>set([(id, self.redis_docs_client.get(id)) for id in docs_with_word])\<close>.\<close>

definition hits_of :: "index_state \<Rightarrow> string set \<Rightarrow> (string \<times> string option) set" where
  "hits_of st docs_with_word = (\<lambda>i. (i, docs st i)) ` docs_with_word"

text \<open>
  The loop over the query words, with the running set \<open>conjunct\<close>. The conditional
  expression \<open>conjunct & hits if conjunct else hits\<close> tests the truthiness of the
  running set: an empty set is false.
\<close>

fun lookup_loop ::
  "index \<Rightarrow> index_state \<Rightarrow> (string \<times> string option) set \<Rightarrow> string list
    \<Rightarrow> (string \<times> string option) set" where
  "lookup_loop ix st conjunct [] = conjunct"
| "lookup_loop ix st conjunct (word # words) =
     (let docs_with_word = tokens st (query_key ix word);
          hits = hits_of st docs_with_word
      in lookup_loop ix st (if conjunct \<noteq> {} then conjunct \<inter> hits else hits) words)"

definition lookup :: "index \<Rightarrow> index_state \<Rightarrow> string list \<Rightarrow> (string \<times> string option) set" where
  "lookup ix st words = lookup_loop ix st {} words"

subsection \<open>\<open>Index.document_is_processed\<close> and \<open>Index.set_contains_no_text\<close>\<close>

definition document_is_processed :: "index_state \<Rightarrow> string \<Rightarrow> bool" where
  "document_is_processed st filename =
     (let res = docs st filename
      in if truthy_str res then True
         else if res = Some [] then True
         else False)"

definition set_contains_no_text :: "index_state \<Rightarrow> string \<Rightarrow> index_state" where
  "set_contains_no_text st filename = st\<lparr>docs := (docs st)(filename \<mapsto> [])\<rparr>"

subsection \<open>\<open>Index.add\<close>\<close>

text \<open>
  The loop of \<open>add\<close> over the lowercased tokens: a stop word is skipped, one of the four
  tokens \<open>'.'\<close>, \<open>','\<close>, \<open>':'\<close>, \<open>''\<close> is skipped, any other token is stemmed (when a
  stemmer is set) and the file name is added to that token's set.
\<close>

definition sadd :: "(string \<Rightarrow> string set) \<Rightarrow> string \<Rightarrow> string \<Rightarrow> (string \<Rightarrow> string set)" where
  "sadd db key member = db(key := insert member (db key))"

fun add_loop ::
  "index \<Rightarrow> string \<Rightarrow> (string \<Rightarrow> string set) \<Rightarrow> string list \<Rightarrow> (string \<Rightarrow> string set)" where
  "add_loop ix filename db [] = db"
| "add_loop ix filename db (token # rest) =
     (if token \<in> stopwords ix then add_loop ix filename db rest
      else if token \<in> set [''.'', '','', '':'', ''''] then add_loop ix filename db rest
      else add_loop ix filename (sadd db (stem_if ix token) filename) rest)"

definition add :: "index \<Rightarrow> index_state \<Rightarrow> string \<Rightarrow> string \<Rightarrow> index_state" where
  "add ix st filename document =
     st\<lparr>tokens := add_loop ix filename (tokens st) (map lower (word_tokenize ix document)),
        docs := (docs st)(filename \<mapsto> document)\<rparr>"

text \<open>
  The tokens that reach \<open>sadd\<close> in that loop, in order: the list the loop walks, without
  the tokens that hit one of its two \<open>continue\<close> statements, each one stemmed.
\<close>

definition kept :: "index \<Rightarrow> string \<Rightarrow> bool" where
  "kept ix token = (token \<notin> stopwords ix \<and> token \<notin> set [''.'', '','', '':'', ''''])"

definition normalize :: "index \<Rightarrow> string \<Rightarrow> string list" where
  "normalize ix document =
     map (stem_if ix) (filter (kept ix) (map lower (word_tokenize ix document)))"

subsection \<open>The ingestion driver\<close>

text \<open>
  An element of the \<open>textAnnotations\<close> list of a Vision API response is a dictionary.
  \<open>VisionApi.detect_text\<close> returns that list, or \<open>[]\<close> when the response has none, or
  nothing at all (\<open>None\<close>) when the request raised \<open>HttpError\<close> or \<open>KeyError\<close>: both
  handlers only print.
\<close>

type_synonym annotation = "string \<rightharpoonup> string"

text \<open>
  The loop \<open>document += text['description']\<close>; an annotation without that key raises
  \<open>KeyError\<close>, which is caught and printed, and the loop goes on.
\<close>

fun join_descriptions :: "string \<Rightarrow> annotation list \<Rightarrow> string" where
  "join_descriptions document [] = document"
| "join_descriptions document (text # texts) =
     (case text ''description'' of
        Some d \<Rightarrow> join_descriptions (document @ d) texts
      | None \<Rightarrow> join_descriptions document texts)"

text \<open>
  \<open>if texts:\<close> holds for a non-empty list; the \<open>else\<close> branch tells \<open>[]\<close> from \<open>None\<close>
  with \<open>texts == []\<close> and does nothing for \<open>None\<close>.
\<close>

definition extract_descriptions ::
  "index \<Rightarrow> index_state \<Rightarrow> string \<Rightarrow> annotation list option \<Rightarrow> index_state" where
  "extract_descriptions ix st input_filename texts =
     (case texts of
        Some (t # ts) \<Rightarrow> add ix st input_filename (join_descriptions [] (t # ts))
      | Some [] \<Rightarrow> set_contains_no_text st input_filename
      | None \<Rightarrow> st)"

text \<open>
  The Vision API is outside the script: \<open>vision\<close> gives, for a file name, what
  \<open>detect_text\<close> returns on the opened file.
\<close>

definition get_text_from_file ::
  "index \<Rightarrow> (string \<Rightarrow> annotation list option) \<Rightarrow> index_state \<Rightarrow> string \<Rightarrow> index_state" where
  "get_text_from_file ix vision st input_filename =
     extract_descriptions ix st input_filename (vision input_filename)"

text \<open>The second loop of \<open>main\<close>, over the list of files that the directory walk built.\<close>

fun main_loop ::
  "index \<Rightarrow> (string \<Rightarrow> annotation list option) \<Rightarrow> index_state \<Rightarrow> string list \<Rightarrow> index_state" where
  "main_loop ix vision st [] = st"
| "main_loop ix vision st (filename # fileslist) =
     (if document_is_processed st filename then main_loop ix vision st fileslist
      else main_loop ix vision (get_text_from_file ix vision st filename) fileslist)"

subsection \<open>How a call ends\<close>

text \<open>
  A call of a method either returns or raises. The script defines no exception class, and
  the bodies of \<open>add\<close>, \<open>set_contains_no_text\<close> and \<open>lookup\<close> hold no \<open>raise\<close>
  statement and no test of the index before they write or read: each call returns. The
  two failures that the description of the index speaks of are the constructors of
  \<open>error\<close>.
\<close>

datatype error = AlreadyIndexed | InconsistentIndex

definition add_outcome :: "index \<Rightarrow> index_state \<Rightarrow> string \<Rightarrow> string \<Rightarrow> error + index_state" where
  "add_outcome ix st filename document = Inr (add ix st filename document)"

definition set_contains_no_text_outcome :: "index_state \<Rightarrow> string \<Rightarrow> error + index_state" where
  "set_contains_no_text_outcome st filename = Inr (set_contains_no_text st filename)"

definition lookup_outcome ::
  "index \<Rightarrow> index_state \<Rightarrow> string list \<Rightarrow> error + (string \<times> string option) set" where
  "lookup_outcome ix st words = Inr (lookup ix st words)"

subsection \<open>Sample configurations\<close>

text \<open>
  A tokenizer for the examples: it cuts a text at its spaces. On a text whose words and
  punctuation marks stand apart, separated by single spaces, this is what
  \<open>nltk.word_tokenize\<close> answers.
\<close>

fun split_spaces_from :: "string \<Rightarrow> string \<Rightarrow> string list" where
  "split_spaces_from cur [] = (if cur = [] then [] else [cur])"
| "split_spaces_from cur (c # cs) =
     (if c = CHR '' '' then (if cur = [] then split_spaces_from [] cs
                             else cur # split_spaces_from [] cs)
      else split_spaces_from (cur @ [c]) cs)"

definition split_spaces :: "string \<Rightarrow> string list" where
  "split_spaces s = split_spaces_from [] s"

text \<open>A stemmer for the examples: it takes one final \<open>s\<close> off a word.\<close>

definition strip_s :: "string \<Rightarrow> string" where
  "strip_s w = (if w \<noteq> [] \<and> last w = CHR ''s'' then butlast w else w)"

text \<open>No stemmer and the single stop word \<open>and\<close>.\<close>

definition ix_plain :: index where
  "ix_plain = \<lparr>word_tokenize = split_spaces, stemmer = None, stopwords = {''and''}\<rparr>"

definition ix_strip :: index where
  "ix_strip = \<lparr>word_tokenize = split_spaces, stemmer = Some strip_s, stopwords = {}\<rparr>"

text \<open>The index after one image with the text \<open>Cats and Dogs play\<close> went in.\<close>

definition st_img1 :: index_state where
  "st_img1 = add ix_plain empty_state ''img1.png'' ''Cats and Dogs play''"

text \<open>A damaged index: a posting names a file that database 1 does not know.\<close>

definition st_ghost :: index_state where
  "st_ghost = \<lparr>tokens = (\<lambda>_. {})(''cats'' := {''ghost.png''}), docs = Map.empty\<rparr>"

text \<open>
  A stand-in for the Vision API in the examples: text in \<open>a.png\<close>, a failed request for
  \<open>b.png\<close>, no text in any other file.
\<close>

definition vision_sample :: "string \<Rightarrow> annotation list option" where
  "vision_sample filename =
     (if filename = ''a.png'' then Some [[''description'' \<mapsto> ''Cats and Dogs'']]
      else if filename = ''b.png'' then None
      else Some [])"

section \<open>Properties\<close>

lemmas sample_defs =
  add_def lookup_def query_key_def hits_of_def empty_state_def lower_def lower_char_def
  sadd_def stem_if_def ix_plain_def ix_strip_def st_img1_def st_ghost_def split_spaces_def
  strip_s_def normalize_def kept_def document_is_processed_def truthy_str_def
  set_contains_no_text_def

subsection \<open>Lowercasing\<close>

lemma lower_char_idem: "lower_char (lower_char c) = lower_char c"
  by (cases c) (simp add: lower_char_def)

lemma lower_idem: "lower (lower s) = lower s"
  by (simp add: lower_def lower_char_idem)

subsection \<open>What \<open>add\<close> writes\<close>

lemma add_loop_terms:
  "add_loop ix f db toks t =
     (if t \<in> set (map (stem_if ix) (filter (kept ix) toks)) then insert f (db t) else db t)"
proof (induction toks arbitrary: db)
  case Nil
  show ?case by simp
next
  case (Cons tok toks)
  show ?case
  proof (cases "kept ix tok")
    case True
    then have "add_loop ix f db (tok # toks) = add_loop ix f (sadd db (stem_if ix tok) f) toks"
      by (simp add: kept_def)
    then show ?thesis using True
      by (auto simp: Cons.IH sadd_def)
  next
    case False
    then have "add_loop ix f db (tok # toks) = add_loop ix f db toks"
      by (auto simp: kept_def)
    then show ?thesis using False
      by (simp add: Cons.IH)
  qed
qed

lemma tokens_add:
  "tokens (add ix st f document) t =
     (if t \<in> set (normalize ix document) then insert f (tokens st t) else tokens st t)"
  by (simp add: add_def normalize_def add_loop_terms)

lemma docs_add: "docs (add ix st f document) = (docs st)(f \<mapsto> document)"
  by (simp add: add_def)

lemma add_twice: "add ix (add ix st d t) d t = add ix st d t"
proof -
  have "tokens (add ix (add ix st d t) d t) = tokens (add ix st d t)"
    by (rule ext) (simp add: tokens_add)
  moreover have "docs (add ix (add ix st d t) d t) = docs (add ix st d t)"
    by (simp add: docs_add)
  ultimately show ?thesis by simp
qed

lemma add_no_terms: "normalize ix text = [] \<Longrightarrow> tokens (add ix st d text) = tokens st"
  by (rule ext) (simp add: tokens_add)

subsection \<open>What \<open>lookup\<close> answers\<close>

lemma lookup_single: "lookup ix st [w] = hits_of st (tokens st (query_key ix w))"
  by (simp add: lookup_def)

lemma lookup_pair:
  "lookup ix st [a, b] =
     (if lookup ix st [a] \<noteq> {} then lookup ix st [a] \<inter> lookup ix st [b] else lookup ix st [b])"
  by (simp add: lookup_def Let_def)

lemma processed_iff: "document_is_processed st f = (docs st f \<noteq> None)"
  by (cases "docs st f") (auto simp: document_is_processed_def truthy_str_def)

subsection \<open>What the driver leaves alone\<close>

lemma get_text_none: "vision f = None \<Longrightarrow> get_text_from_file ix vision st f = st"
  by (simp add: get_text_from_file_def extract_descriptions_def)

lemma get_text_other_docs:
  "g \<noteq> f \<Longrightarrow> docs (get_text_from_file ix vision st f) g = docs st g"
  by (simp add: get_text_from_file_def extract_descriptions_def docs_add set_contains_no_text_def
      split: option.splits list.splits)

lemma get_text_other_tokens:
  "g \<noteq> f \<Longrightarrow> (g \<in> tokens (get_text_from_file ix vision st f) t) = (g \<in> tokens st t)"
  by (simp add: get_text_from_file_def extract_descriptions_def tokens_add set_contains_no_text_def
      split: option.splits list.splits)

lemma get_text_processes:
  "vision f \<noteq> None \<Longrightarrow> document_is_processed (get_text_from_file ix vision st f) f"
  by (auto simp: get_text_from_file_def extract_descriptions_def docs_add set_contains_no_text_def
      processed_iff split: option.splits list.splits)

lemma main_loop_keeps:
  "document_is_processed st g \<or> vision g = None \<Longrightarrow>
   docs (main_loop ix vision st files) g = docs st g \<and>
   (\<forall>t. (g \<in> tokens (main_loop ix vision st files) t) = (g \<in> tokens st t))"
proof (induction files arbitrary: st)
  case Nil
  show ?case by simp
next
  case (Cons h files)
  show ?case
  proof (cases "document_is_processed st h")
    case True
    then show ?thesis using Cons.IH [OF Cons.prems] by simp
  next
    case False
    let ?st1 = "get_text_from_file ix vision st h"
    have step: "docs ?st1 g = docs st g \<and> (\<forall>t. (g \<in> tokens ?st1 t) = (g \<in> tokens st t))"
    proof (cases "g = h")
      case True
      with False Cons.prems have "vision h = None" by simp
      then show ?thesis by (simp add: get_text_none)
    next
      case False
      then show ?thesis by (simp add: get_text_other_docs get_text_other_tokens)
    qed
    then have "document_is_processed ?st1 g \<or> vision g = None"
      using Cons.prems by (simp add: processed_iff)
    from Cons.IH [OF this] step False show ?thesis by simp
  qed
qed

lemma main_loop_processes:
  "f \<in> set files \<Longrightarrow> vision f \<noteq> None \<Longrightarrow> document_is_processed (main_loop ix vision st files) f"
proof (induction files arbitrary: st)
  case Nil
  then show ?case by simp
next
  case (Cons h files)
  show ?case
  proof (cases "document_is_processed st h")
    case True
    show ?thesis
    proof (cases "f = h")
      case True
      with \<open>document_is_processed st h\<close> have "document_is_processed st f" by simp
      then have "docs (main_loop ix vision st (h # files)) f = docs st f"
        using main_loop_keeps by blast
      with \<open>document_is_processed st f\<close> show ?thesis by (simp add: processed_iff)
    next
      case False
      with Cons.prems have "f \<in> set files" by simp
      from Cons.IH [OF this Cons.prems(2)] True show ?thesis by simp
    qed
  next
    case False
    let ?st1 = "get_text_from_file ix vision st h"
    show ?thesis
    proof (cases "f = h")
      case True
      with Cons.prems have p: "document_is_processed ?st1 f" by (simp add: get_text_processes)
      then have "docs (main_loop ix vision ?st1 files) f = docs ?st1 f"
        using main_loop_keeps by blast
      with p False show ?thesis by (simp add: processed_iff)
    next
      case neq: False
      with Cons.prems have "f \<in> set files" by simp
      from Cons.IH [OF this Cons.prems(2)] False show ?thesis by simp
    qed
  qed
qed

lemmas driver_defs = get_text_from_file_def extract_descriptions_def vision_sample_def

lemma run_example:
  "docs (main_loop ix_plain vision_sample st_img1 [''img1.png'', ''a.png'', ''b.png'', ''c.png'']) =
     [''img1.png'' \<mapsto> ''Cats and Dogs play'', ''a.png'' \<mapsto> ''Cats and Dogs'', ''c.png'' \<mapsto> '''']"
  by (simp add: sample_defs driver_defs)

subsection \<open>Looking up the terms of an added document\<close>

lemma lookup_finds_token:
  "tok \<in> set (map lower (word_tokenize ix T)) \<Longrightarrow> kept ix tok \<Longrightarrow>
   (D, Some T) \<in> lookup ix (add ix st D T) [tok]"
proof -
  assume a: "tok \<in> set (map lower (word_tokenize ix T))" and k: "kept ix tok"
  from a have "lower tok = tok" by (auto simp: lower_idem)
  then have q: "query_key ix tok = stem_if ix tok" by (simp add: query_key_def)
  from a k have "stem_if ix tok \<in> set (normalize ix T)" by (auto simp: normalize_def)
  then show ?thesis
    by (simp add: lookup_single hits_of_def image_iff tokens_add docs_add q)
qed

lemma lookup_finds_term_no_stemmer:
  "stemmer ix = None \<Longrightarrow> t \<in> set (normalize ix T) \<Longrightarrow>
   (D, Some T) \<in> lookup ix (add ix st D T) [t]"
proof -
  assume s: "stemmer ix = None" and t: "t \<in> set (normalize ix T)"
  from s have id: "\<And>w. stem_if ix w = w" by (simp add: stem_if_def)
  from t obtain tok where "tok \<in> set (map lower (word_tokenize ix T))" "kept ix tok" "t = tok"
    by (auto simp: normalize_def id)
  then show ?thesis using lookup_finds_token by blast
qed

section \<open>The claims\<close>

subsection \<open>Conjunction of two query words\<close>

text \<open>
  Claim C1: for two distinct normalized terms \<open>a\<close> and \<open>b\<close>, \<open>lookup([a, b])\<close> is the
  intersection of \<open>lookup([a])\<close> and \<open>lookup([b])\<close>, and it is empty when the postings of
  \<open>a\<close> are empty. The docstring of \<open>lookup\<close> promises the intersection of the hits. The
  loop tells "no word seen yet" from "no hit so far" by the truthiness of the running set
  and so cannot tell them apart: in the index that holds one image with the text
  \<open>Cats and Dogs play\<close>, the query \<open>zebra cats\<close> answers that image, though nothing
  matches \<open>zebra\<close>.
\<close>

theorem lookup_pair_leaks_second_word:
  "lookup ix_plain st_img1 [''zebra''] = {} \<and>
   lookup ix_plain st_img1 [''cats''] = {(''img1.png'', Some ''Cats and Dogs play'')} \<and>
   lookup ix_plain st_img1 [''zebra'', ''cats''] = {(''img1.png'', Some ''Cats and Dogs play'')} \<and>
   lookup ix_plain st_img1 [''zebra'', ''cats''] \<noteq>
     lookup ix_plain st_img1 [''zebra''] \<inter> lookup ix_plain st_img1 [''cats'']"
  by (simp add: sample_defs)

subsection \<open>Adding a document twice\<close>

text \<open>
  Claim C2, amended: \<open>add\<close> tests nothing before it writes and never fails with
  \<open>AlreadyIndexed\<close>. A second \<open>add\<close> of the same file with the same text returns and
  leaves both databases as the first call left them. In general a call of \<open>add\<close> returns,
  only grows the postings and stores the text it was given under the file name.
\<close>

theorem add_again_same_text:
  "add_outcome ix (add ix st d t) d t = Inr (add ix st d t) \<and>
   (\<exists>st'. add_outcome ix st d t = Inr st' \<and> docs st' d = Some t \<and>
      (\<forall>w. tokens st w \<subseteq> tokens st' w))"
  by (auto simp: add_outcome_def add_twice docs_add tokens_add)

text \<open>
  The claim as worded fails: on a file already in the index the call does not fail, and
  with another text it changes both the stored text and the postings.
\<close>

theorem add_again_counterexample:
  "document_is_processed st_img1 ''img1.png'' \<and>
   add_outcome ix_plain st_img1 ''img1.png'' ''Cats and Dogs play'' \<noteq> Inl AlreadyIndexed \<and>
   docs (add ix_plain st_img1 ''img1.png'' ''fish'') \<noteq> docs st_img1 \<and>
   tokens (add ix_plain st_img1 ''img1.png'' ''fish'') \<noteq> tokens st_img1"
proof -
  have "docs (add ix_plain st_img1 ''img1.png'' ''fish'') ''img1.png'' \<noteq> docs st_img1 ''img1.png''"
    by (simp add: sample_defs)
  then have d: "docs (add ix_plain st_img1 ''img1.png'' ''fish'') \<noteq> docs st_img1"
    by metis
  have "tokens (add ix_plain st_img1 ''img1.png'' ''fish'') ''fish'' \<noteq> tokens st_img1 ''fish''"
    by (simp add: sample_defs)
  then have t: "tokens (add ix_plain st_img1 ''img1.png'' ''fish'') \<noteq> tokens st_img1"
    by metis
  have p: "document_is_processed st_img1 ''img1.png''"
    by (simp add: sample_defs)
  show ?thesis using d t p by (simp add: add_outcome_def)
qed

subsection \<open>Marking a file as holding no text\<close>

text \<open>
  Claim C3, amended: \<open>set_contains_no_text\<close> never fails; it stores the empty string as
  the text of the file, whatever was stored before, and leaves the postings alone.
  Afterwards \<open>document_is_processed\<close> answers true for the file, and a later \<open>add\<close> of
  the file returns and stores its text.
\<close>

theorem mark_empty_then_add:
  "set_contains_no_text_outcome st d = Inr (st\<lparr>docs := (docs st)(d \<mapsto> [])\<rparr>) \<and>
   tokens (set_contains_no_text st d) = tokens st \<and>
   document_is_processed (set_contains_no_text st d) d \<and>
   (\<exists>st'. add_outcome ix (set_contains_no_text st d) d text = Inr st' \<and> docs st' d = Some text)"
  by (simp add: set_contains_no_text_outcome_def set_contains_no_text_def processed_iff
      add_outcome_def docs_add)

text \<open>
  The claim as worded fails: on a file already in the index the call does not fail but
  replaces the stored text by the empty string, and an \<open>add\<close> after it does not fail
  either.
\<close>

theorem mark_empty_counterexample:
  "document_is_processed st_img1 ''img1.png'' \<and>
   set_contains_no_text_outcome st_img1 ''img1.png'' \<noteq> Inl AlreadyIndexed \<and>
   docs st_img1 ''img1.png'' = Some ''Cats and Dogs play'' \<and>
   docs (set_contains_no_text st_img1 ''img1.png'') ''img1.png'' = Some '''' \<and>
   add_outcome ix_plain (set_contains_no_text empty_state ''img2.png'') ''img2.png'' ''anything''
     \<noteq> Inl AlreadyIndexed \<and>
   docs (add ix_plain (set_contains_no_text empty_state ''img2.png'') ''img2.png'' ''anything'')
     ''img2.png'' = Some ''anything''"
  by (simp add: sample_defs add_outcome_def set_contains_no_text_outcome_def)

subsection \<open>A posting without a stored text\<close>

text \<open>
  Claim C4, amended: \<open>lookup\<close> never fails with \<open>InconsistentIndex\<close>. A file name in the
  posting of the queried word that has no entry in database 1 is part of the result,
  paired with \<open>None\<close> in place of its text.
\<close>

theorem lookup_missing_text_placeholder:
  "d \<in> tokens st (query_key ix w) \<Longrightarrow> docs st d = None \<Longrightarrow>
   lookup_outcome ix st [w] = Inr (lookup ix st [w]) \<and> (d, None) \<in> lookup ix st [w]"
  by (auto simp: lookup_outcome_def lookup_single hits_of_def image_iff)

text \<open>An instance, in the damaged index.\<close>

theorem lookup_missing_text_placeholder_witness:
  "''ghost.png'' \<in> tokens st_ghost (query_key ix_plain ''cats'') \<and>
   docs st_ghost ''ghost.png'' = None \<and>
   (''ghost.png'', None) \<in> lookup ix_plain st_ghost [''cats'']"
proof -
  have h1: "''ghost.png'' \<in> tokens st_ghost (query_key ix_plain ''cats'')"
    by (simp add: sample_defs)
  have h2: "docs st_ghost ''ghost.png'' = None"
    by (simp add: sample_defs)
  from lookup_missing_text_placeholder [OF h1 h2] h1 h2 show ?thesis by simp
qed

text \<open>The claim as worded fails there: the call returns the file with the placeholder.\<close>

theorem lookup_ghost_counterexample:
  "''ghost.png'' \<in> tokens st_ghost ''cats'' \<and> docs st_ghost ''ghost.png'' = None \<and>
   lookup_outcome ix_plain st_ghost [''cats''] = Inr {(''ghost.png'', None)}"
  by (simp add: sample_defs lookup_outcome_def)

subsection \<open>An added document is found under its terms\<close>

text \<open>
  Claim C5, amended: after \<open>add(D, T)\<close>, for every term \<open>t\<close> that normalizing \<open>T\<close> gives
  and that the lowercasing and stemming of \<open>lookup\<close> leave as it is, \<open>lookup([t])\<close> holds
  \<open>D\<close> paired with \<open>T\<close>. (\<open>lookup\<close> lowercases and stems the query word once more; the
  lemmas \<open>lookup_finds_token\<close> and \<open>lookup_finds_term_no_stemmer\<close> give the same for the
  unstemmed tokens of \<open>T\<close>, and for every term when no stemmer is set.)
\<close>

theorem lookup_finds_added_document:
  "t \<in> set (normalize ix T) \<Longrightarrow> query_key ix t = t \<Longrightarrow>
   (D, Some T) \<in> lookup ix (add ix st D T) [t]"
  by (simp add: lookup_single hits_of_def image_iff tokens_add docs_add)

text \<open>An instance, with the stemmer that strips a final \<open>s\<close>.\<close>

theorem lookup_finds_added_document_witness:
  "''cat'' \<in> set (normalize ix_strip ''Cats play'') \<and> query_key ix_strip ''cat'' = ''cat'' \<and>
   (''img1.png'', Some ''Cats play'') \<in>
     lookup ix_strip (add ix_strip empty_state ''img1.png'' ''Cats play'') [''cat'']"
proof -
  have h1: "''cat'' \<in> set (normalize ix_strip ''Cats play'')"
    by (simp add: sample_defs)
  have h2: "query_key ix_strip ''cat'' = ''cat''"
    by (simp add: sample_defs)
  from lookup_finds_added_document [OF h1 h2] h1 h2 show ?thesis by simp
qed

text \<open>
  The claim as worded fails with that stemmer: the text \<open>glass\<close> gives the term \<open>glas\<close>,
  and the query \<open>glas\<close> is stemmed again, to \<open>gla\<close>, under which nothing is stored.
\<close>

theorem lookup_term_counterexample:
  "''glas'' \<in> set (normalize ix_strip ''glass'') \<and>
   \<not> document_is_processed empty_state ''img3.png'' \<and>
   (''img3.png'', Some ''glass'') \<notin>
     lookup ix_strip (add ix_strip empty_state ''img3.png'' ''glass'') [''glas'']"
  by (simp add: sample_defs)

subsection \<open>Which tokens become terms\<close>

text \<open>
  Claim C6, amended: \<open>add\<close> tokenizes the text, lowercases the tokens, skips a token that
  is in the stop word set, skips a token that is one of \<open>'.'\<close>, \<open>','\<close>, \<open>':'\<close> and \<open>''\<close>,
  and stems every other token; the file is written to the posting of a term exactly when
  the term is the stem of such a remaining token. So no token of the stop word set and
  none of these four tokens is stemmed or written; any other punctuation token is.
\<close>

theorem add_writes_stemmed_kept_tokens:
  "tokens (add ix st f document) t =
     (if \<exists>tok \<in> set (map lower (word_tokenize ix document)).
           tok \<notin> stopwords ix \<and> tok \<notin> {''.'', '','', '':'', ''''} \<and> stem_if ix tok = t
      then insert f (tokens st t) else tokens st t)"
proof -
  have "(t \<in> set (normalize ix document)) =
        (\<exists>tok \<in> set (map lower (word_tokenize ix document)).
           tok \<notin> stopwords ix \<and> tok \<notin> {''.'', '','', '':'', ''''} \<and> stem_if ix tok = t)"
    by (auto simp: normalize_def kept_def)
  then show ?thesis by (simp only: tokens_add)
qed

text \<open>An instance: a stop word, a full stop, a word and an exclamation mark.\<close>

theorem add_writes_stemmed_kept_tokens_witness:
  "tokens (add ix_plain empty_state ''img4.png'' ''Cats and Dogs . wow !'') ''cats'' = {''img4.png''} \<and>
   tokens (add ix_plain empty_state ''img4.png'' ''Cats and Dogs . wow !'') ''and'' = {} \<and>
   tokens (add ix_plain empty_state ''img4.png'' ''Cats and Dogs . wow !'') ''.'' = {} \<and>
   tokens (add ix_plain empty_state ''img4.png'' ''Cats and Dogs . wow !'') ''!'' = {''img4.png''}"
proof -
  let ?doc = "''Cats and Dogs . wow !''"
  have toks: "map lower (word_tokenize ix_plain ?doc) = [''cats'', ''and'', ''dogs'', ''.'', ''wow'', ''!'']"
    by (simp add: sample_defs)
  have e: "tokens empty_state = (\<lambda>_. {})" "stopwords ix_plain = {''and''}" "\<And>w. stem_if ix_plain w = w"
    by (simp_all add: sample_defs)
  show ?thesis
    using add_writes_stemmed_kept_tokens [of ix_plain empty_state "''img4.png''" ?doc "''cats''"]
      add_writes_stemmed_kept_tokens [of ix_plain empty_state "''img4.png''" ?doc "''and''"]
      add_writes_stemmed_kept_tokens [of ix_plain empty_state "''img4.png''" ?doc "''.''"]
      add_writes_stemmed_kept_tokens [of ix_plain empty_state "''img4.png''" ?doc "''!''"]
    by (simp add: toks e)
qed

text \<open>
  The claim as worded fails: the tokens \<open>!\<close> and \<open>;\<close> are pure punctuation and become
  terms of the index.
\<close>

theorem punctuation_term_counterexample:
  "''img4.png'' \<in> tokens (add ix_plain empty_state ''img4.png'' ''wow !'') ''!'' \<and>
   ''img4.png'' \<in> tokens (add ix_plain empty_state ''img4.png'' ''cats ; dogs'') '';''"
  by (simp add: sample_defs)

subsection \<open>Processed files\<close>

text \<open>
  Claim C7: \<open>document_is_processed\<close> answers true exactly when database 1 holds an entry
  for the file, be it a text or the empty string that marks a file without text, and
  false for a file with no entry.
\<close>

theorem document_is_processed_iff_entry:
  "(document_is_processed st d \<longleftrightarrow> d \<in> dom (docs st)) \<and>
   (document_is_processed st d \<longleftrightarrow>
      docs st d = Some [] \<or> (\<exists>text. text \<noteq> [] \<and> docs st d = Some text))"
  by (cases "docs st d") (auto simp: document_is_processed_def truthy_str_def)

subsection \<open>A run of the driver\<close>

text \<open>
  Claim C8: in a run of the driver, a file whose request to the Vision API failed (no
  result came back) leaves the index as it was, so after the run it is still not
  processed and no posting names it more than before; a file that was processed before
  the run keeps its stored text and its postings. A later run, over a list that holds the
  failed file and with a request that answers, processes it.
\<close>

theorem failed_extraction_leaves_no_state:
  assumes "vision f = None" and "\<not> document_is_processed st f" and "document_is_processed st g"
  shows "get_text_from_file ix vision st f = st \<and>
         \<not> document_is_processed (main_loop ix vision st files) f \<and>
         (\<forall>t. (f \<in> tokens (main_loop ix vision st files) t) = (f \<in> tokens st t)) \<and>
         docs (main_loop ix vision st files) g = docs st g \<and>
         (\<forall>t. (g \<in> tokens (main_loop ix vision st files) t) = (g \<in> tokens st t)) \<and>
         (\<forall>vision' files'. f \<in> set files' \<and> vision' f \<noteq> None \<longrightarrow>
            document_is_processed (main_loop ix vision' (main_loop ix vision st files) files') f)"
proof -
  have a: "get_text_from_file ix vision st f = st"
    using assms(1) by (rule get_text_none)
  have kf: "docs (main_loop ix vision st files) f = docs st f \<and>
            (\<forall>t. (f \<in> tokens (main_loop ix vision st files) t) = (f \<in> tokens st t))"
    using assms(1) by (intro main_loop_keeps) simp
  have kg: "docs (main_loop ix vision st files) g = docs st g \<and>
            (\<forall>t. (g \<in> tokens (main_loop ix vision st files) t) = (g \<in> tokens st t))"
    using assms(3) by (intro main_loop_keeps) simp
  have b: "\<not> document_is_processed (main_loop ix vision st files) f"
    using kf assms(2) by (simp add: processed_iff)
  have c: "\<forall>vision' files'. f \<in> set files' \<and> vision' f \<noteq> None \<longrightarrow>
            document_is_processed (main_loop ix vision' (main_loop ix vision st files) files') f"
    by (simp add: main_loop_processes)
  from a b c kf kg show ?thesis by simp
qed

text \<open>
  An instance: the index holds \<open>img1.png\<close>; the run meets a file with text, a file whose
  request fails and a file without text; a second run gets an answer for every file.
\<close>

theorem failed_extraction_leaves_no_state_witness:
  "vision_sample ''b.png'' = None \<and>
   \<not> document_is_processed st_img1 ''b.png'' \<and>
   document_is_processed st_img1 ''img1.png'' \<and>
   \<not> document_is_processed
       (main_loop ix_plain vision_sample st_img1 [''img1.png'', ''a.png'', ''b.png'', ''c.png''])
       ''b.png'' \<and>
   docs (main_loop ix_plain vision_sample st_img1 [''img1.png'', ''a.png'', ''b.png'', ''c.png''])
       ''img1.png'' = Some ''Cats and Dogs play'' \<and>
   document_is_processed
     (main_loop ix_plain (\<lambda>_. Some [])
        (main_loop ix_plain vision_sample st_img1 [''img1.png'', ''a.png'', ''b.png'', ''c.png''])
        [''img1.png'', ''a.png'', ''b.png'', ''c.png''])
     ''b.png''"
proof -
  let ?files = "[''img1.png'', ''a.png'', ''b.png'', ''c.png'']"
  have h1: "vision_sample ''b.png'' = None"
    by (simp add: vision_sample_def)
  have h2: "\<not> document_is_processed st_img1 ''b.png''"
    by (simp add: sample_defs)
  have h3: "document_is_processed st_img1 ''img1.png''"
    by (simp add: sample_defs)
  have d: "docs st_img1 ''img1.png'' = Some ''Cats and Dogs play''"
    by (simp add: sample_defs)
  have m: "''b.png'' \<in> set ?files \<and> (\<lambda>_. Some []) ''b.png'' \<noteq> (None :: annotation list option)"
    by simp
  note run = failed_extraction_leaves_no_state
    [of vision_sample "''b.png''" st_img1 "''img1.png''" ix_plain ?files, OF h1 h2 h3]
  from run have c1: "\<not> document_is_processed (main_loop ix_plain vision_sample st_img1 ?files) ''b.png''"
    by blast
  from run d have c2: "docs (main_loop ix_plain vision_sample st_img1 ?files) ''img1.png'' =
      Some ''Cats and Dogs play''"
    by simp
  from run have later: "\<forall>vision' files'. ''b.png'' \<in> set files' \<and> vision' ''b.png'' \<noteq> None \<longrightarrow>
      document_is_processed
        (main_loop ix_plain vision' (main_loop ix_plain vision_sample st_img1 ?files) files') ''b.png''"
    by blast
  have c3: "document_is_processed
      (main_loop ix_plain (\<lambda>_. Some []) (main_loop ix_plain vision_sample st_img1 ?files) ?files)
      ''b.png''"
    using later [rule_format, where ?vision' = "\<lambda>_. Some []" and ?files' = ?files] by simp
  from h1 h2 h3 c1 c2 c3 show ?thesis by simp
qed

subsection \<open>The empty query\<close>

text \<open>Claim C9: \<open>lookup\<close> of no words at all answers the empty set, in every index.\<close>

theorem lookup_no_words: "lookup ix st [] = {}"
  by (simp add: lookup_def)

subsection \<open>Adding a text without terms\<close>

text \<open>
  Claim C10, amended: \<open>add\<close> of a text that normalizes to no terms writes no posting
  and stores the text itself under the file name, so the file counts as processed. When
  the text is the empty string, the stored value is the one that marks a file without
  text, and the index after \<open>add\<close> is the index after \<open>set_contains_no_text\<close>.
\<close>

theorem add_without_terms:
  "normalize ix text = [] \<Longrightarrow>
   tokens (add ix st d text) = tokens st \<and>
   docs (add ix st d text) = (docs st)(d \<mapsto> text) \<and>
   document_is_processed (add ix st d text) d \<and>
   (text = [] \<longrightarrow> add ix st d text = set_contains_no_text st d)"
proof -
  assume n: "normalize ix text = []"
  have t: "tokens (add ix st d text) = tokens st" by (rule add_no_terms [OF n])
  have "add ix st d text = st\<lparr>tokens := tokens st, docs := (docs st)(d \<mapsto> text)\<rparr>"
    using t by (simp add: add_def)
  then have "text = [] \<longrightarrow> add ix st d text = set_contains_no_text st d"
    by (auto simp: set_contains_no_text_def)
  then show ?thesis using t by (simp add: docs_add processed_iff)
qed

text \<open>An instance: the empty text.\<close>

theorem add_without_terms_witness:
  "normalize ix_plain '''' = [] \<and>
   tokens (add ix_plain st_img1 ''img5.png'' '''') = tokens st_img1 \<and>
   docs (add ix_plain st_img1 ''img5.png'' '''') ''img5.png'' = Some '''' \<and>
   add ix_plain st_img1 ''img5.png'' '''' = set_contains_no_text st_img1 ''img5.png''"
proof -
  have h: "normalize ix_plain '''' = []"
    by (simp add: sample_defs)
  from add_without_terms [OF h, of st_img1 "''img5.png''"] h show ?thesis
    by (simp add: set_contains_no_text_def)
qed

text \<open>
  The claim as worded fails: the text \<open>and .\<close> normalizes to no terms, and what is stored
  is that text, not the empty string.
\<close>

theorem add_without_terms_counterexample:
  "normalize ix_plain ''and .'' = [] \<and>
   \<not> document_is_processed empty_state ''img5.png'' \<and>
   docs (add ix_plain empty_state ''img5.png'' ''and .'') ''img5.png'' = Some ''and .'' \<and>
   docs (add ix_plain empty_state ''img5.png'' ''and .'') ''img5.png'' \<noteq> Some '''' \<and>
   docs (add ix_plain empty_state ''img5.png'' ''and .'') ''img5.png'' \<noteq>
     docs (set_contains_no_text empty_state ''img5.png'') ''img5.png''"
  by (simp add: sample_defs)

end
